theory Spec2Isabelle
  imports Complex_Main "HOL-Library.Word" "HOL-Library.FSet" "HOL-Library.Multiset"
begin

unbundle bit_operations_syntax

section \<open>JavaScript numbers\<close>

text \<open>
  The similarity coefficients are JavaScript numbers. A division whose divisor is zero
  does not fail in JavaScript: it yields \<open>Infinity\<close>, \<open>-Infinity\<close> or \<open>NaN\<close>.
  These three values are kept apart from the finite ones, so that a division by zero
  stays visible in the model. Finite values are real numbers: rounding to a double is
  not modelled.
\<close>

datatype number = Fin real | PosInf | NegInf | NaN

text \<open>The operator \<open>/\<close> on two finite numbers.\<close>

definition js_div :: "real \<Rightarrow> real \<Rightarrow> number" where
  "js_div a b =
     (if b = 0 then (if a = 0 then NaN else if 0 < a then PosInf else NegInf)
      else Fin (a / b))"

text \<open>The operator \<open>>=\<close>: every comparison with \<open>NaN\<close> is false.\<close>

fun js_ge :: "number \<Rightarrow> number \<Rightarrow> bool" where
  "js_ge NaN _ = False"
| "js_ge _ NaN = False"
| "js_ge (Fin a) (Fin b) = (b \<le> a)"
| "js_ge PosInf _ = True"
| "js_ge _ NegInf = True"
| "js_ge (Fin _) PosInf = False"
| "js_ge NegInf _ = False"

text \<open>The operator \<open>===\<close> on numbers: \<open>NaN\<close> is not equal to itself.\<close>

definition js_strict_eq :: "number \<Rightarrow> number \<Rightarrow> bool" where
  "js_strict_eq a b = (a \<noteq> NaN \<and> a = b)"

text \<open>The product \<open>x * 100\<close>.\<close>

fun times100 :: "number \<Rightarrow> number" where
  "times100 (Fin r) = Fin (r * 100)"
| "times100 PosInf = PosInf"
| "times100 NegInf = NegInf"
| "times100 NaN = NaN"

text \<open>The operator \<open>-\<close>, as the comparator of the sort uses it.\<close>

fun js_minus :: "number \<Rightarrow> number \<Rightarrow> number" where
  "js_minus NaN _ = NaN"
| "js_minus _ NaN = NaN"
| "js_minus (Fin a) (Fin b) = Fin (a - b)"
| "js_minus PosInf PosInf = NaN"
| "js_minus NegInf NegInf = NaN"
| "js_minus PosInf _ = PosInf"
| "js_minus NegInf _ = NegInf"
| "js_minus (Fin _) PosInf = NegInf"
| "js_minus (Fin _) NegInf = PosInf"

text \<open>\<open>Math.min\<close> of two numbers, and of the elements of an array spread into its
  arguments: with no argument the result is \<open>Infinity\<close>.\<close>

fun js_min :: "number \<Rightarrow> number \<Rightarrow> number" where
  "js_min NaN _ = NaN"
| "js_min _ NaN = NaN"
| "js_min NegInf _ = NegInf"
| "js_min _ NegInf = NegInf"
| "js_min PosInf b = b"
| "js_min a PosInf = a"
| "js_min (Fin a) (Fin b) = Fin (min a b)"

definition Math_min :: "number list \<Rightarrow> number" where
  "Math_min xs = fold (\<lambda>x m. js_min m x) xs PosInf"

text \<open>A number that results from an unsigned integer.\<close>

definition num :: "nat \<Rightarrow> number" where
  "num n = Fin (real n)"

section \<open>SimilarityEngine (similarity.ts)\<close>

text \<open>
  A JavaScript \<open>Set\<close> is a finite set; \<open>size\<close> is its cardinality. The iteration order
  of a \<open>Set\<close> is not modelled: every operation below only collects elements into a new
  \<open>Set\<close> or counts them.
\<close>

definition size_of :: "'a fset \<Rightarrow> nat" where
  "size_of s = fcard s"

text \<open>\<open>intersection\<close>: walk the smaller set and keep what the larger one has.\<close>

definition intersection :: "'a fset \<Rightarrow> 'a fset \<Rightarrow> 'a fset" where
  "intersection set1 set2 =
     (let (smaller, larger) = (if size_of set1 < size_of set2 then (set1, set2) else (set2, set1))
      in ffilter (\<lambda>item. item |\<in>| larger) smaller)"

text \<open>\<open>union\<close>: copy the first set, then add every element of the second.\<close>

definition union :: "'a fset \<Rightarrow> 'a fset \<Rightarrow> 'a fset" where
  "union set1 set2 = ffold finsert set1 set2"

text \<open>\<open>difference\<close>: the elements of the first set that the second does not have.\<close>

definition difference :: "'a fset \<Rightarrow> 'a fset \<Rightarrow> 'a fset" where
  "difference set1 set2 = ffilter (\<lambda>item. item |\<notin>| set2) set1"

definition computeJaccardSimilarity :: "'a fset \<Rightarrow> 'a fset \<Rightarrow> number" where
  "computeJaccardSimilarity set1 set2 =
     (if size_of set1 = 0 \<and> size_of set2 = 0 then Fin 1
      else js_div (real (size_of (intersection set1 set2))) (real (size_of (union set1 set2))))"

definition computeOverlapCoefficient :: "'a fset \<Rightarrow> 'a fset \<Rightarrow> number" where
  "computeOverlapCoefficient set1 set2 =
     (if size_of set1 = 0 \<or> size_of set2 = 0 then Fin 0
      else js_div (real (size_of (intersection set1 set2)))
             (real (min (size_of set1) (size_of set2))))"

definition computeCosineSimilarity :: "'a fset \<Rightarrow> 'a fset \<Rightarrow> number" where
  "computeCosineSimilarity set1 set2 =
     (if size_of set1 = 0 \<or> size_of set2 = 0 then Fin 0
      else js_div (real (size_of (intersection set1 set2)))
             (sqrt (real (size_of set1 * size_of set2))))"

definition computeDiceCoefficient :: "'a fset \<Rightarrow> 'a fset \<Rightarrow> number" where
  "computeDiceCoefficient set1 set2 =
     (if size_of set1 = 0 \<and> size_of set2 = 0 then Fin 1
      else js_div (real (2 * size_of (intersection set1 set2)))
             (real (size_of set1 + size_of set2)))"

record SimilarityResult =
  jaccardSimilarity :: number
  cosineSimilarity :: number
  overlapCoefficient :: number
  intersectionSize :: nat
  unionSize :: nat
  set1Size :: nat
  set2Size :: nat

definition computeAllSimilarities :: "'a fset \<Rightarrow> 'a fset \<Rightarrow> SimilarityResult" where
  "computeAllSimilarities set1 set2 =
     \<lparr> jaccardSimilarity = computeJaccardSimilarity set1 set2,
       cosineSimilarity = computeCosineSimilarity set1 set2,
       overlapCoefficient = computeOverlapCoefficient set1 set2,
       intersectionSize = size_of (intersection set1 set2),
       unionSize = size_of (union set1 set2),
       set1Size = size_of set1,
       set2Size = size_of set2 \<rparr>"

section \<open>TextPreprocessor (preprocessing.ts)\<close>

text \<open>
  A text is a sequence of UTF-16 code units. The pipeline is modelled on the texts whose
  code units are below 256 (ASCII and Latin-1), one \<open>char\<close> each, so that it can be run on
  examples; \<open>toLowerCase\<close> maps this range into itself. In this range \<open>\w\<close> is
  \<open>[A-Za-z0-9_]\<close> and \<open>\s\<close> is the six ASCII white space characters and the no-break space;
  \<open>trim\<close> strips the same characters. The normalizer for every text, with the full white
  space class and any lower-case mapping, is \<open>normalize_units\<close> below; on the strings of
  this section the two agree (\<open>normalize_units_string\<close>).
\<close>

definition charCode :: "char \<Rightarrow> nat" where
  "charCode c = of_char c"

definition is_word_char :: "char \<Rightarrow> bool" where
  "is_word_char c =
     (let n = charCode c
      in (48 \<le> n \<and> n \<le> 57) \<or> (65 \<le> n \<and> n \<le> 90) \<or> n = 95 \<or> (97 \<le> n \<and> n \<le> 122))"

definition is_space_char :: "char \<Rightarrow> bool" where
  "is_space_char c =
     (let n = charCode c
      in (9 \<le> n \<and> n \<le> 13) \<or> n = 32 \<or> n = 160)"

definition toLowerCase_char :: "char \<Rightarrow> char" where
  "toLowerCase_char c =
     (let n = charCode c
      in if (65 \<le> n \<and> n \<le> 90) \<or> (192 \<le> n \<and> n \<le> 222 \<and> n \<noteq> 215)
         then char_of (n + 32) else c)"

definition toLowerCase :: "string \<Rightarrow> string" where
  "toLowerCase s = map toLowerCase_char s"

text \<open>\<open>replace(/[^\w\s]/g, ' ')\<close>\<close>

definition replace_punctuation :: "string \<Rightarrow> string" where
  "replace_punctuation s =
     map (\<lambda>c. if is_word_char c \<or> is_space_char c then c else CHR '' '') s"

text \<open>\<open>replace(/\s+/g, ' ')\<close>: every maximal run of white space becomes one space.\<close>

function replace_whitespace :: "string \<Rightarrow> string" where
  "replace_whitespace [] = []"
| "replace_whitespace (c # cs) =
     (if is_space_char c then CHR '' '' # replace_whitespace (dropWhile is_space_char cs)
      else c # replace_whitespace cs)"
  by pat_completeness auto
termination
  by (relation "measure length") (auto simp: less_Suc_eq_le length_dropWhile_le)

definition trim :: "string \<Rightarrow> string" where
  "trim s = rev (dropWhile is_space_char (rev (dropWhile is_space_char s)))"

definition normalize :: "string \<Rightarrow> string" where
  "normalize text = trim (replace_whitespace (replace_punctuation (toLowerCase text)))"

text \<open>\<open>split(' ')\<close>: the pieces between the separators; the empty string gives one
  empty piece.\<close>

fun split_on :: "char \<Rightarrow> string \<Rightarrow> string list" where
  "split_on d [] = [[]]"
| "split_on d (c # cs) =
     (if c = d then [] # split_on d cs
      else (case split_on d cs of [] \<Rightarrow> [[c]] | w # ws \<Rightarrow> (c # w) # ws))"

text \<open>\<open>join(' ')\<close>\<close>

fun join_space :: "string list \<Rightarrow> string" where
  "join_space [] = []"
| "join_space [w] = w"
| "join_space (w # ws) = w @ CHR '' '' # join_space ws"

definition tokenize :: "string \<Rightarrow> string list" where
  "tokenize text = filter (\<lambda>word. length word > 0) (split_on (CHR '' '') (normalize text))"

text \<open>\<open>substring(a, b)\<close>: both indices are clamped to the string, and swapped when the
  first is the larger.\<close>

definition substring :: "string \<Rightarrow> int \<Rightarrow> int \<Rightarrow> string" where
  "substring s a b =
     (let n = int (length s);
          a' = min (max a 0) n;
          b' = min (max b 0) n;
          lo = min a' b';
          hi = max a' b'
      in take (nat (hi - lo)) (drop (nat lo) s))"

text \<open>\<open>slice(a, b)\<close> of an array: a negative index counts from the end.\<close>

definition slice :: "'a list \<Rightarrow> int \<Rightarrow> int \<Rightarrow> 'a list" where
  "slice xs a b =
     (let n = int (length xs);
          a' = (if a < 0 then max (n + a) 0 else min a n);
          b' = (if b < 0 then max (n + b) 0 else min b n)
      in take (nat (b' - a')) (drop (nat a') xs))"

text \<open>The loop of \<open>generateKGrams\<close>, from the counter \<open>i\<close> and the array built so far.\<close>

function kGrams_loop :: "string \<Rightarrow> int \<Rightarrow> int \<Rightarrow> string list \<Rightarrow> string list" where
  "kGrams_loop normalized k i kGrams =
     (if i \<le> int (length normalized) - k
      then kGrams_loop normalized k (i + 1) (kGrams @ [substring normalized i (i + k)])
      else kGrams)"
  by pat_completeness auto
termination
  by (relation "measure (\<lambda>(normalized, k, i, kGrams). nat (int (length normalized) - k + 1 - i))")
    auto

declare kGrams_loop.simps [simp del]

definition generateKGrams :: "string \<Rightarrow> int \<Rightarrow> string list" where
  "generateKGrams text k = kGrams_loop (normalize text) k 0 []"

function nGrams_loop :: "string list \<Rightarrow> int \<Rightarrow> int \<Rightarrow> string list \<Rightarrow> string list" where
  "nGrams_loop words n i nGrams =
     (if i \<le> int (length words) - n
      then nGrams_loop words n (i + 1) (nGrams @ [join_space (slice words i (i + n))])
      else nGrams)"
  by pat_completeness auto
termination
  by (relation "measure (\<lambda>(words, n, i, nGrams). nat (int (length words) - n + 1 - i))") auto

declare nGrams_loop.simps [simp del]

definition generateWordNGrams :: "string \<Rightarrow> int \<Rightarrow> string list" where
  "generateWordNGrams text n = nGrams_loop (tokenize text) n 0 []"

definition stopWords :: "string list" where
  "stopWords =
     [''the'', ''a'', ''an'', ''and'', ''or'', ''but'', ''in'', ''on'', ''at'', ''to'', ''for'',
      ''of'', ''with'', ''is'', ''was'', ''are'', ''were'', ''be'', ''been'', ''being'',
      ''have'', ''has'', ''had'', ''do'', ''does'', ''did'', ''will'', ''would'', ''could'',
      ''should'', ''may'', ''might'', ''can'', ''this'', ''that'', ''these'', ''those'']"

definition removeStopWords :: "string \<Rightarrow> string" where
  "removeStopWords text = join_space (filter (\<lambda>word. word \<notin> set stopWords) (tokenize text))"

section \<open>HashingEngine (hashing.ts)\<close>

text \<open>
  \<open>fnvHash\<close>: \<open>^=\<close> and \<open>Math.imul\<close> work on 32-bit integers, and \<open>>>> 0\<close> reads the
  final 32 bits as an unsigned number. \<open>fnvHash_units\<close> is the function on the code
  units of any string (\<open>charCodeAt\<close> gives numbers below \<open>2 ^ 16\<close>); \<open>fnvHash\<close> is the
  same function on the strings of the model.
\<close>

definition FNV_PRIME :: "32 word" where
  "FNV_PRIME = 0x01000193"

definition FNV_OFFSET :: "32 word" where
  "FNV_OFFSET = 0x811c9dc5"

definition fnv_step :: "nat \<Rightarrow> 32 word \<Rightarrow> 32 word" where
  "fnv_step code hash = (hash XOR word_of_nat code) * FNV_PRIME"

definition fnvHash_units :: "nat list \<Rightarrow> nat" where
  "fnvHash_units units = unat (fold fnv_step units FNV_OFFSET)"

definition fnvHash :: "string \<Rightarrow> nat" where
  "fnvHash str = fnvHash_units (map charCode str)"

definition generateFingerprints :: "string list \<Rightarrow> number fset" where
  "generateFingerprints kGrams =
     fold (\<lambda>kGram fingerprints. finsert (num (fnvHash kGram)) fingerprints) kGrams {||}"

text \<open>The winnowing loop, from the counter \<open>i\<close> and the set built so far.\<close>

function winnowing_loop :: "number list \<Rightarrow> int \<Rightarrow> int \<Rightarrow> number fset \<Rightarrow> number fset" where
  "winnowing_loop hashes windowSize i fingerprints =
     (if i \<le> int (length hashes) - windowSize
      then winnowing_loop hashes windowSize (i + 1)
             (finsert (Math_min (slice hashes i (i + windowSize))) fingerprints)
      else fingerprints)"
  by pat_completeness auto
termination
  by (relation "measure (\<lambda>(hashes, windowSize, i, fingerprints).
        nat (int (length hashes) - windowSize + 1 - i))") auto

declare winnowing_loop.simps [simp del]

definition generateWinnowingFingerprints :: "string list \<Rightarrow> int \<Rightarrow> number fset" where
  "generateWinnowingFingerprints kGrams windowSize =
     (if length kGrams = 0 then {||}
      else winnowing_loop (map (\<lambda>kg. num (fnvHash kg)) kGrams) windowSize 0 {||})"

datatype error = Error string

text \<open>\<open>estimateSimilarityFromMinHash\<close>: the loop counts the matching positions.\<close>

definition count_matches :: "number list \<Rightarrow> number list \<Rightarrow> nat" where
  "count_matches sig1 sig2 =
     fold (\<lambda>i matches. if js_strict_eq (sig1 ! i) (sig2 ! i) then matches + 1 else matches)
       [0..<length sig1] 0"

definition estimateSimilarityFromMinHash :: "number list \<Rightarrow> number list \<Rightarrow> error + number" where
  "estimateSimilarityFromMinHash sig1 sig2 =
     (if length sig1 \<noteq> length sig2 then Inl (Error ''Signatures must have same length'')
      else Inr (js_div (real (count_matches sig1 sig2)) (real (length sig1))))"

section \<open>Common k-grams and classification (similarity.ts)\<close>

text \<open>A \<open>Map\<close> from k-grams to positions keeps its keys in insertion order: an
  association list.\<close>

definition push_position :: "(string \<times> nat list) list \<Rightarrow> string \<Rightarrow> nat \<Rightarrow> (string \<times> nat list) list" where
  "push_position m kg idx =
     (let m' = (if map_of m kg = None then m @ [(kg, [])] else m)
      in map (\<lambda>(k, positions). if k = kg then (k, positions @ [idx]) else (k, positions)) m')"

definition kGramMap :: "string list \<Rightarrow> (string \<times> nat list) list" where
  "kGramMap kGrams =
     fold (\<lambda>idx m. push_position m (kGrams ! idx) idx) [0..<length kGrams] []"

record CommonKGram =
  kgram :: string
  positions1 :: "nat list"
  positions2 :: "nat list"

definition findCommonKGrams :: "string list \<Rightarrow> string list \<Rightarrow> CommonKGram list" where
  "findCommonKGrams kGrams1 kGrams2 =
     (let kGramMap1 = kGramMap kGrams1;
          kGramMap2 = kGramMap kGrams2
      in concat (map (\<lambda>(kg, ps1).
           (case map_of kGramMap2 kg of
              None \<Rightarrow> []
            | Some ps2 \<Rightarrow> [\<lparr> kgram = kg, positions1 = ps1, positions2 = ps2 \<rparr>])) kGramMap1))"

datatype level = None_level | Low | Medium | High | Very_high

record Classification =
  level :: level
  label :: string
  color :: string

definition classifySimilarity :: "number \<Rightarrow> Classification" where
  "classifySimilarity similarity =
     (if js_ge similarity (Fin 0.8) then
        \<lparr> level = Very_high, label = ''Very High Similarity'',
          color = ''text-red-600 dark:text-red-400'' \<rparr>
      else if js_ge similarity (Fin 0.6) then
        \<lparr> level = High, label = ''High Similarity'',
          color = ''text-orange-600 dark:text-orange-400'' \<rparr>
      else if js_ge similarity (Fin 0.4) then
        \<lparr> level = Medium, label = ''Medium Similarity'',
          color = ''text-yellow-600 dark:text-yellow-400'' \<rparr>
      else if js_ge similarity (Fin 0.2) then
        \<lparr> level = Low, label = ''Low Similarity'',
          color = ''text-blue-600 dark:text-blue-400'' \<rparr>
      else
        \<lparr> level = None_level, label = ''Minimal Similarity'',
          color = ''text-green-600 dark:text-green-400'' \<rparr>)"

section \<open>PlagiarismDetector (similarity.ts)\<close>

record PlagiarismConfig =
  kGramSize :: int
  useWinnowing :: bool
  winnowingWindowSize :: int
  removeStopWords_option :: bool
  useWordNGrams :: bool
  wordNGramSize :: int

text \<open>The configuration a detector has when it is built with no option.\<close>

definition default_config :: PlagiarismConfig where
  "default_config =
     \<lparr> kGramSize = 5, useWinnowing = False, winnowingWindowSize = 4,
       removeStopWords_option = False, useWordNGrams = False, wordNGramSize = 3 \<rparr>"

record DocumentFingerprint =
  documentId :: string
  documentName :: string
  content :: string
  kGrams :: "string list"
  fingerprints :: "number fset"
  preprocessedText :: string

record DocRef =
  doc_id :: string
  doc_name :: string

record ComparisonResult =
  doc1 :: DocRef
  doc2 :: DocRef
  similarity :: SimilarityResult
  similarityPercentage :: number
  classification :: Classification
  isPlagiarized :: bool
  commonKGrams :: "CommonKGram list"

definition preprocessText :: "PlagiarismConfig \<Rightarrow> string \<Rightarrow> string" where
  "preprocessText config text =
     (let processed = normalize text
      in if removeStopWords_option config then removeStopWords processed else processed)"

definition detector_generateKGrams :: "PlagiarismConfig \<Rightarrow> string \<Rightarrow> string list" where
  "detector_generateKGrams config text =
     (if useWordNGrams config then generateWordNGrams text (wordNGramSize config)
      else generateKGrams text (kGramSize config))"

definition detector_generateFingerprints :: "PlagiarismConfig \<Rightarrow> string list \<Rightarrow> number fset" where
  "detector_generateFingerprints config kgs =
     (if useWinnowing config
      then generateWinnowingFingerprints kgs (winnowingWindowSize config)
      else generateFingerprints kgs)"

definition createDocumentFingerprint ::
  "PlagiarismConfig \<Rightarrow> string \<Rightarrow> string \<Rightarrow> string \<Rightarrow> DocumentFingerprint" where
  "createDocumentFingerprint config did dname dcontent =
     (let pre = preprocessText config dcontent;
          kgs = detector_generateKGrams config pre;
          fps = detector_generateFingerprints config kgs
      in \<lparr> documentId = did, documentName = dname, content = dcontent,
           kGrams = kgs, fingerprints = fps, preprocessedText = pre \<rparr>)"

definition compareDocuments ::
  "DocumentFingerprint \<Rightarrow> DocumentFingerprint \<Rightarrow> number \<Rightarrow> ComparisonResult" where
  "compareDocuments d1 d2 plagiarismThreshold =
     (let sim = computeAllSimilarities (fingerprints d1) (fingerprints d2);
          percentage = times100 (jaccardSimilarity sim);
          cls = classifySimilarity (jaccardSimilarity sim);
          plagiarized = js_ge (jaccardSimilarity sim) plagiarismThreshold;
          common = findCommonKGrams (kGrams d1) (kGrams d2)
      in \<lparr> doc1 = \<lparr> doc_id = documentId d1, doc_name = documentName d1 \<rparr>,
           doc2 = \<lparr> doc_id = documentId d2, doc_name = documentName d2 \<rparr>,
           similarity = sim,
           similarityPercentage = percentage,
           classification = cls,
           isPlagiarized = plagiarized,
           commonKGrams = slice common 0 100 \<rparr>)"

text \<open>
  \<open>sort\<close> with a comparator: the first argument goes behind the second when the
  comparator returns a number above zero; \<open>NaN\<close> counts as zero. The engine's algorithm
  is not part of the repository; the model is the stable insertion sort.
\<close>

fun js_positive :: "number \<Rightarrow> bool" where
  "js_positive (Fin r) = (0 < r)"
| "js_positive PosInf = True"
| "js_positive NegInf = False"
| "js_positive NaN = False"

fun sort_insert :: "('a \<Rightarrow> 'a \<Rightarrow> number) \<Rightarrow> 'a \<Rightarrow> 'a list \<Rightarrow> 'a list" where
  "sort_insert cmp x [] = [x]"
| "sort_insert cmp x (y # ys) =
     (if js_positive (cmp x y) then y # sort_insert cmp x ys else x # y # ys)"

definition js_sort :: "('a \<Rightarrow> 'a \<Rightarrow> number) \<Rightarrow> 'a list \<Rightarrow> 'a list" where
  "js_sort cmp xs = foldr (sort_insert cmp) xs []"

definition by_percentage_desc :: "ComparisonResult \<Rightarrow> ComparisonResult \<Rightarrow> number" where
  "by_percentage_desc a b = js_minus (similarityPercentage b) (similarityPercentage a)"

text \<open>The two nested loops of \<open>compareAll\<close>, in the order in which they push.\<close>

definition all_pairs_results :: "DocumentFingerprint list \<Rightarrow> number \<Rightarrow> ComparisonResult list" where
  "all_pairs_results documents plagiarismThreshold =
     concat (map (\<lambda>i. map (\<lambda>j. compareDocuments (documents ! i) (documents ! j) plagiarismThreshold)
                        [i + 1..<length documents])
                 [0..<length documents])"

definition compareAll :: "DocumentFingerprint list \<Rightarrow> number \<Rightarrow> ComparisonResult list" where
  "compareAll documents plagiarismThreshold =
     js_sort by_percentage_desc (all_pairs_results documents plagiarismThreshold)"

definition compareAgainstMultiple ::
  "DocumentFingerprint \<Rightarrow> DocumentFingerprint list \<Rightarrow> number \<Rightarrow> ComparisonResult list" where
  "compareAgainstMultiple targetDoc documents plagiarismThreshold =
     js_sort by_percentage_desc
       (map (\<lambda>doc. compareDocuments targetDoc doc plagiarismThreshold)
          (filter (\<lambda>doc. documentId doc \<noteq> documentId targetDoc) documents))"

text \<open>Every number that a similarity bundle stores, field by field.\<close>

definition bundle_numbers :: "SimilarityResult \<Rightarrow> number list" where
  "bundle_numbers s =
     [jaccardSimilarity s, cosineSimilarity s, overlapCoefficient s,
      num (intersectionSize s), num (unionSize s), num (set1Size s), num (set2Size s)]"

text \<open>A number is finite when it is neither an infinity nor \<open>NaN\<close>.\<close>

definition is_finite :: "number \<Rightarrow> bool" where
  "is_finite x = (case x of Fin _ \<Rightarrow> True | _ \<Rightarrow> False)"

text \<open>Two documents for the examples: one fingerprint against four.\<close>

definition example_doc1 :: DocumentFingerprint where
  "example_doc1 =
     \<lparr> documentId = ''1'', documentName = ''one'', content = [], kGrams = [],
       fingerprints = {|Fin 1|}, preprocessedText = [] \<rparr>"

definition example_doc2 :: DocumentFingerprint where
  "example_doc2 =
     \<lparr> documentId = ''2'', documentName = ''two'', content = [], kGrams = [],
       fingerprints = {|Fin 1, Fin 2, Fin 3, Fin 4|}, preprocessedText = [] \<rparr>"

text \<open>
  The FNV-1a computation as the specification words it, on natural numbers: from the
  offset basis, for each character code in order, XOR the code into the running hash and
  multiply by the prime modulo \<open>2 ^ 32\<close>.
\<close>

definition fnv1a_reference :: "nat list \<Rightarrow> nat" where
  "fnv1a_reference codes =
     fold (\<lambda>c h. ((h XOR c) * 0x01000193) mod 2 ^ 32) codes 0x811c9dc5"

text \<open>A detector with winnowing switched on, and two short documents that have no
  character in common.\<close>

definition winnowing_config :: PlagiarismConfig where
  "winnowing_config = default_config \<lparr> useWinnowing := True \<rparr>"

definition short_doc1 :: DocumentFingerprint where
  "short_doc1 = createDocumentFingerprint winnowing_config ''1'' ''first'' ''abcdef''"

definition short_doc2 :: DocumentFingerprint where
  "short_doc2 = createDocumentFingerprint winnowing_config ''2'' ''second'' ''uvwxyz''"

text \<open>The order of a list that is sorted by descending similarity percentage.\<close>

definition percentage_ge :: "ComparisonResult \<Rightarrow> ComparisonResult \<Rightarrow> bool" where
  "percentage_ge a b = js_ge (similarityPercentage a) (similarityPercentage b)"

section \<open>The normalizer on UTF-16 code units\<close>

text \<open>
  \<open>normalize\<close> for every JavaScript string: a text is the list of its UTF-16 code units,
  as natural numbers. The two regular expressions have no \<open>u\<close> flag and work on single
  code units: \<open>\w\<close> is \<open>[A-Za-z0-9_]\<close>; \<open>\s\<close> is the white space and the line terminators
  of the language (tab, line feed, vertical tab, form feed, carriage return, space,
  no-break space, U+1680, U+2000 to U+200A, U+2028, U+2029, U+202F, U+205F, U+3000 and
  U+FEFF), and \<open>trim\<close> strips the same code units.
\<close>

definition is_word_unit :: "nat \<Rightarrow> bool" where
  "is_word_unit c =
     ((48 \<le> c \<and> c \<le> 57) \<or> (65 \<le> c \<and> c \<le> 90) \<or> c = 95 \<or> (97 \<le> c \<and> c \<le> 122))"

definition is_space_unit :: "nat \<Rightarrow> bool" where
  "is_space_unit c =
     ((9 \<le> c \<and> c \<le> 13) \<or> c = 32 \<or> c = 160 \<or> c = 0x1680
      \<or> (0x2000 \<le> c \<and> c \<le> 0x200A) \<or> c = 0x2028 \<or> c = 0x2029 \<or> c = 0x202F
      \<or> c = 0x205F \<or> c = 0x3000 \<or> c = 0xFEFF)"

definition replace_punctuation_units :: "nat list \<Rightarrow> nat list" where
  "replace_punctuation_units s =
     map (\<lambda>c. if is_word_unit c \<or> is_space_unit c then c else 32) s"

function replace_whitespace_units :: "nat list \<Rightarrow> nat list" where
  "replace_whitespace_units [] = []"
| "replace_whitespace_units (c # cs) =
     (if is_space_unit c then 32 # replace_whitespace_units (dropWhile is_space_unit cs)
      else c # replace_whitespace_units cs)"
  by pat_completeness auto
termination
  by (relation "measure length") (auto simp: less_Suc_eq_le length_dropWhile_le)

definition trim_units :: "nat list \<Rightarrow> nat list" where
  "trim_units s = rev (dropWhile is_space_unit (rev (dropWhile is_space_unit s)))"

text \<open>
  \<open>String.prototype.toLowerCase\<close> belongs to the engine: its case mapping (the Unicode
  tables, with results of another length such as U+0130 and rules that look at the
  neighbours such as the final sigma) is not part of the repository. It is the parameter
  \<open>lower\<close>, a function from strings to strings.
\<close>

definition normalize_units :: "(nat list \<Rightarrow> nat list) \<Rightarrow> nat list \<Rightarrow> nat list" where
  "normalize_units lower text =
     trim_units (replace_whitespace_units (replace_punctuation_units (lower text)))"

text \<open>
  A lower-case function for the examples: the mapping of ASCII and Latin-1, of U+0130
  (capital I with dot above, which becomes two code units) and of U+212A (the Kelvin
  sign, which becomes \<open>k\<close>); every other code unit stays.
\<close>

definition toLowerCase_unit :: "nat \<Rightarrow> nat list" where
  "toLowerCase_unit c =
     (if (65 \<le> c \<and> c \<le> 90) \<or> (192 \<le> c \<and> c \<le> 222 \<and> c \<noteq> 215) then [c + 32]
      else if c = 0x0130 then [105, 0x0307]
      else if c = 0x212A then [107]
      else [c])"

definition toLowerCase_units :: "nat list \<Rightarrow> nat list" where
  "toLowerCase_units s = concat (map toLowerCase_unit s)"

text \<open>A list of code units in which every white space unit is a space that is followed
  by no white space.\<close>

fun collapsed_units :: "nat list \<Rightarrow> bool" where
  "collapsed_units [] = True"
| "collapsed_units (c # cs) =
     ((\<not> is_space_unit c \<or> (c = 32 \<and> (cs = [] \<or> \<not> is_space_unit (hd cs))))
      \<and> collapsed_units cs)"

section \<open>Set operations and the four coefficients\<close>

lemma comp_fun_idem_finsert: "comp_fun_idem (finsert :: 'a \<Rightarrow> 'a fset \<Rightarrow> 'a fset)"
  by (simp add: comp_fun_idem_def comp_fun_commute_def comp_fun_idem_axioms_def fun_eq_iff) auto

lemma intersection_eq: "intersection A B = A |\<inter>| B"
  by (auto simp: intersection_def Let_def)

lemma union_eq: "union A B = A |\<union>| B"
proof -
  have "ffold finsert A B = A |\<union>| B"
  proof (induction B)
    case empty
    show ?case
      by (simp add: comp_fun_commute.ffold_empty
            [OF comp_fun_idem.axioms(1) [OF comp_fun_idem_finsert]])
  next
    case (insert x B)
    then show ?case
      by (simp add: comp_fun_idem.ffold_finsert_idem [OF comp_fun_idem_finsert])
  qed
  then show ?thesis by (simp add: union_def)
qed

lemma size_of_0 [simp]: "size_of A = 0 \<longleftrightarrow> A = {||}"
  by (simp add: size_of_def)

lemma jaccard_eq:
  "computeJaccardSimilarity A B =
     (if A = {||} \<and> B = {||} then Fin 1
      else Fin (real (fcard (A |\<inter>| B)) / real (fcard (A |\<union>| B))))"
  by (auto simp: computeJaccardSimilarity_def intersection_eq union_eq js_div_def size_of_def)

lemma dice_eq:
  "computeDiceCoefficient A B =
     (if A = {||} \<and> B = {||} then Fin 1
      else Fin (real (2 * fcard (A |\<inter>| B)) / real (fcard A + fcard B)))"
proof -
  have "fcard A + fcard B = 0 \<longleftrightarrow> A = {||} \<and> B = {||}"
    by simp
  then show ?thesis
    by (simp add: computeDiceCoefficient_def intersection_eq js_div_def size_of_def
          del: of_nat_add of_nat_mult add_is_0)
qed

lemma overlap_eq:
  "computeOverlapCoefficient A B =
     (if A = {||} \<or> B = {||} then Fin 0
      else Fin (real (fcard (A |\<inter>| B)) / real (min (fcard A) (fcard B))))"
proof -
  have "min m n = 0 \<longleftrightarrow> m = 0 \<or> n = 0" for m n :: nat
    by (auto simp: min_def)
  from this [of "fcard A" "fcard B"]
  have "min (fcard A) (fcard B) = 0 \<longleftrightarrow> A = {||} \<or> B = {||}"
    by simp
  then show ?thesis
    by (simp add: computeOverlapCoefficient_def intersection_eq js_div_def size_of_def)
qed

lemma cosine_eq:
  "computeCosineSimilarity A B =
     (if A = {||} \<or> B = {||} then Fin 0
      else Fin (real (fcard (A |\<inter>| B)) / sqrt (real (fcard A * fcard B))))"
  by (auto simp: computeCosineSimilarity_def intersection_eq js_div_def size_of_def)

lemma similarity_compareDocuments:
  "similarity (compareDocuments d1 d2 t) = computeAllSimilarities (fingerprints d1) (fingerprints d2)"
  by (simp add: compareDocuments_def Let_def)

text \<open>
  Claim C1, as the code has it: the similarity bundle of the result of
  \<open>compareDocuments\<close> holds three coefficients (Jaccard, cosine and overlap) of the two
  fingerprint sets, the size of their intersection, the size of their union and the size
  of each set. The Dice coefficient is computed by \<open>computeDiceCoefficient\<close> alone and
  is not a field of the bundle.
\<close>

theorem similarity_bundle_fields:
  "similarity (compareDocuments d1 d2 t) =
     \<lparr> jaccardSimilarity = computeJaccardSimilarity (fingerprints d1) (fingerprints d2),
       cosineSimilarity = computeCosineSimilarity (fingerprints d1) (fingerprints d2),
       overlapCoefficient = computeOverlapCoefficient (fingerprints d1) (fingerprints d2),
       intersectionSize = fcard (fingerprints d1 |\<inter>| fingerprints d2),
       unionSize = fcard (fingerprints d1 |\<union>| fingerprints d2),
       set1Size = fcard (fingerprints d1),
       set2Size = fcard (fingerprints d2) \<rparr>"
  by (simp add: similarity_compareDocuments computeAllSimilarities_def intersection_eq union_eq
        size_of_def)

text \<open>
  Claim C1, as stated, fails: for a document with the fingerprint 1 and a document with
  the fingerprints 1, 2, 3 and 4 the Dice coefficient is 2/5, and no number of the
  bundle (1/4, 1/2, 1, 1, 4, 1, 4) is 2/5.
\<close>

theorem similarity_bundle_dice_counterexample:
  "computeDiceCoefficient (fingerprints example_doc1) (fingerprints example_doc2) = Fin (2 / 5)
   \<and> computeDiceCoefficient (fingerprints example_doc1) (fingerprints example_doc2)
       \<notin> set (bundle_numbers (similarity (compareDocuments example_doc1 example_doc2 (Fin 0.5))))"
  by (simp add: similarity_compareDocuments computeAllSimilarities_def bundle_numbers_def
        jaccard_eq dice_eq overlap_eq cosine_eq intersection_eq union_eq size_of_def num_def
        example_doc1_def example_doc2_def fcard_finsert_if fcard_fempty)

text \<open>
  Claim C3: the Jaccard coefficient is the size of the intersection over the size of the
  union, and 1 for two empty sets; the Dice coefficient of two empty sets is 1; the
  overlap and the cosine coefficient are 0 when either set is empty; and every
  coefficient is a finite number, so that no comparison with an empty set yields an
  infinity (a division by zero) or \<open>NaN\<close>.
\<close>

theorem empty_set_rules:
  fixes A B :: "'a fset"
  shows "computeJaccardSimilarity A B =
     (if A = {||} \<and> B = {||} then Fin 1
      else Fin (real (fcard (A |\<inter>| B)) / real (fcard (A |\<union>| B))))
   \<and> computeJaccardSimilarity ({||} :: 'a fset) {||} = Fin 1
   \<and> computeDiceCoefficient ({||} :: 'a fset) {||} = Fin 1
   \<and> (A = {||} \<or> B = {||} \<longrightarrow>
        computeOverlapCoefficient A B = Fin 0 \<and> computeCosineSimilarity A B = Fin 0)
   \<and> is_finite (computeJaccardSimilarity A B) \<and> is_finite (computeDiceCoefficient A B)
   \<and> is_finite (computeOverlapCoefficient A B) \<and> is_finite (computeCosineSimilarity A B)"
  by (simp add: jaccard_eq dice_eq overlap_eq cosine_eq is_finite_def)

theorem empty_set_rules_witness:
  "computeJaccardSimilarity {||} {|1::nat, 2|} = Fin 0
   \<and> computeOverlapCoefficient {||} {|1::nat, 2|} = Fin 0
   \<and> computeCosineSimilarity {||} {|1::nat, 2|} = Fin 0
   \<and> is_finite (computeDiceCoefficient {||} {|1::nat, 2|})"
  using empty_set_rules [of "{||}" "{|1::nat, 2|}"] by (simp add: fcard_fempty)

text \<open>
  Claim C7: each of the four coefficients gives the same number when its two arguments
  are exchanged, although \<open>intersection\<close> walks whichever set is the smaller.
\<close>

theorem coefficients_symmetric:
  "computeJaccardSimilarity A B = computeJaccardSimilarity B A
   \<and> computeCosineSimilarity A B = computeCosineSimilarity B A
   \<and> computeOverlapCoefficient A B = computeOverlapCoefficient B A
   \<and> computeDiceCoefficient A B = computeDiceCoefficient B A"
  by (auto simp: jaccard_eq dice_eq overlap_eq cosine_eq inf_commute sup_commute add.commute
        mult.commute min.commute)

section \<open>The hash\<close>

lemma charCode_less: "charCode c < 256"
  by (simp add: charCode_def)

lemma unat_fnv_step:
  assumes "c < 2 ^ 32"
  shows "unat (fnv_step c h) = ((unat h XOR c) * 0x01000193) mod 2 ^ 32"
proof -
  have "unat (word_of_nat c :: 32 word) = c"
    using assms by (simp add: unsigned_of_nat take_bit_nat_eq_self)
  then show ?thesis
    by (simp add: fnv_step_def FNV_PRIME_def unat_word_ariths unsigned_xor_eq)
qed

lemma unat_fold_fnv_step:
  assumes "\<forall>c \<in> set codes. c < 2 ^ 32"
  shows "unat (fold fnv_step codes h) =
     fold (\<lambda>c h. ((h XOR c) * 0x01000193) mod 2 ^ 32) codes (unat h)"
  using assms by (induction codes arbitrary: h) (simp_all add: unat_fnv_step)

lemma fnvHash_units_reference:
  assumes "\<forall>c \<in> set codes. c < 2 ^ 16"
  shows "fnvHash_units codes = fnv1a_reference codes"
proof -
  have "\<forall>c \<in> set codes. c < (2 ^ 32 :: nat)"
  proof
    fix c assume "c \<in> set codes"
    with assms have "c < (2 ^ 16 :: nat)" by simp
    then show "c < 2 ^ 32" by simp
  qed
  then show ?thesis
    by (simp add: fnvHash_units_def fnv1a_reference_def unat_fold_fnv_step FNV_OFFSET_def)
qed

lemma fnvHash_units_less: "fnvHash_units codes < 2 ^ 32"
  using unsigned_less [of "fold fnv_step codes FNV_OFFSET", where 'a = nat]
  by (simp add: fnvHash_units_def)

text \<open>
  Claim C6: \<open>fnvHash\<close> is a function of its string alone, it equals the FNV-1a reference
  computation (offset basis \<open>0x811c9dc5\<close>, per character XOR then multiplication by
  \<open>0x01000193\<close> modulo \<open>2 ^ 32\<close>), and its result lies in \<open>[0, 2 ^ 32)\<close>: for every
  sequence of code units below \<open>2 ^ 16\<close>, and so for every string of the model.
\<close>

theorem fnvHash_is_fnv1a:
  "((\<forall>c \<in> set codes. c < 2 ^ 16) \<longrightarrow> fnvHash_units codes = fnv1a_reference codes)
   \<and> fnvHash_units codes < 2 ^ 32
   \<and> fnvHash s = fnv1a_reference (map charCode s) \<and> fnvHash s < 2 ^ 32
   \<and> (\<forall>t. t = s \<longrightarrow> fnvHash t = fnvHash s)"
proof -
  have "\<forall>c \<in> set (map charCode s). c < 2 ^ 16"
  proof
    fix c assume "c \<in> set (map charCode s)"
    then obtain x where "c = charCode x" by auto
    with charCode_less [of x] show "c < 2 ^ 16" by simp
  qed
  then have "fnvHash s = fnv1a_reference (map charCode s)"
    unfolding fnvHash_def by (rule fnvHash_units_reference)
  moreover have "fnvHash s < 2 ^ 32"
    unfolding fnvHash_def by (rule fnvHash_units_less)
  moreover have "fnvHash_units codes < 2 ^ 32"
    by (rule fnvHash_units_less)
  moreover have "(\<forall>c \<in> set codes. c < 2 ^ 16) \<longrightarrow> fnvHash_units codes = fnv1a_reference codes"
    using fnvHash_units_reference by blast
  ultimately show ?thesis by blast
qed

theorem fnvHash_is_fnv1a_witness:
  "(0x4E2D :: nat) < 2 ^ 16 \<and> (0x6587 :: nat) < 2 ^ 16
   \<and> fnvHash_units [0x4E2D, 0x6587] = 1362277805
   \<and> fnv1a_reference [0x4E2D, 0x6587] = 1362277805
   \<and> fnvHash ''abc'' = 440920331 \<and> fnv1a_reference (map charCode ''abc'') = 440920331"
  using fnvHash_is_fnv1a [of "[0x4E2D, 0x6587]" "''abc''"]
  by (simp add: fnvHash_def fnvHash_units_def fnv_step_def FNV_PRIME_def FNV_OFFSET_def
        charCode_def)

section \<open>Shingles\<close>

lemma length_kGrams_loop:
  "length (kGrams_loop normalized k i acc) =
     length acc + nat (int (length normalized) - k + 1 - i)"
proof (induction normalized k i acc rule: kGrams_loop.induct)
  case (1 normalized k i kGrams)
  show ?case
  proof (cases "i \<le> int (length normalized) - k")
    case True
    with "1" show ?thesis
      by (subst kGrams_loop.simps) simp
  next
    case False
    then show ?thesis
      by (subst kGrams_loop.simps) simp
  qed
qed

text \<open>
  Claim C5: for every text and every \<open>k\<close> of at least 1, \<open>generateKGrams\<close> returns
  \<open>max 0 (n - k + 1)\<close> k-grams, where \<open>n\<close> is the length of the normalized text; when
  \<open>n\<close> is below \<open>k\<close> the result is the empty array. The function has no failing path.
\<close>

theorem generateKGrams_count:
  assumes "1 \<le> k"
  shows "int (length (generateKGrams t k)) = max 0 (int (length (normalize t)) - k + 1)
    \<and> (int (length (normalize t)) < k \<longrightarrow> generateKGrams t k = [])"
proof -
  have len: "length (generateKGrams t k) = nat (int (length (normalize t)) - k + 1)"
    by (simp add: generateKGrams_def length_kGrams_loop)
  then have "int (length (normalize t)) < k \<longrightarrow> length (generateKGrams t k) = 0"
    by simp
  with len show ?thesis by auto
qed

theorem generateKGrams_count_witness:
  "(1::int) \<le> 5 \<and> length (generateKGrams ''Hello, World!'' 5) = 7
   \<and> length (normalize ''Hi!'') < 5 \<and> generateKGrams ''Hi!'' 5 = []"
proof -
  have n1: "normalize ''Hello, World!'' = ''hello world''"
    by code_simp
  have n2: "normalize ''Hi!'' = ''hi''"
    by code_simp
  show ?thesis
    using generateKGrams_count [of 5 "''Hello, World!''"] generateKGrams_count [of 5 "''Hi!''"]
    by (simp add: n1 n2)
qed

section \<open>Winnowing\<close>

lemma winnowing_loop_member:
  "x |\<in>| winnowing_loop hashes w i fp \<longleftrightarrow>
     x |\<in>| fp \<or> (\<exists>j. i \<le> j \<and> j \<le> int (length hashes) - w
                     \<and> x = Math_min (slice hashes j (j + w)))"
proof (induction hashes w i fp rule: winnowing_loop.induct)
  case (1 hashes w i fp)
  show ?case
  proof (cases "i \<le> int (length hashes) - w")
    case True
    have "(\<exists>j. i \<le> j \<and> j \<le> int (length hashes) - w \<and> x = Math_min (slice hashes j (j + w)))
      \<longleftrightarrow> x = Math_min (slice hashes i (i + w))
         \<or> (\<exists>j. i + 1 \<le> j \<and> j \<le> int (length hashes) - w \<and> x = Math_min (slice hashes j (j + w)))"
      (is "?L \<longleftrightarrow> ?R")
    proof
      assume ?L
      then obtain j where j: "i \<le> j" "j \<le> int (length hashes) - w"
        "x = Math_min (slice hashes j (j + w))" by blast
      show ?R
      proof (cases "j = i")
        case True
        with j show ?thesis by simp
      next
        case False
        with j have "i + 1 \<le> j" by simp
        with j show ?thesis by blast
      qed
    next
      assume ?R
      then show ?L
      proof
        assume "x = Math_min (slice hashes i (i + w))"
        with True show ?L by (intro exI [of _ i]) simp
      next
        assume "\<exists>j. i + 1 \<le> j \<and> j \<le> int (length hashes) - w
                  \<and> x = Math_min (slice hashes j (j + w))"
        then obtain j where "i + 1 \<le> j" "j \<le> int (length hashes) - w"
          "x = Math_min (slice hashes j (j + w))" by blast
        then show ?L by (intro exI [of _ j]) simp
      qed
    qed
    with True "1" show ?thesis
      by (subst winnowing_loop.simps) auto
  next
    case False
    then show ?thesis
      by (subst winnowing_loop.simps) auto
  qed
qed

lemma slice_middle:
  assumes "0 \<le> w" "w \<le> int (length r)"
  shows "slice (a @ r @ b) (int (length a)) (int (length a) + w) = take (nat w) r"
  using assms by (simp add: slice_def Let_def min_def)

lemma winnowing_has_window:
  assumes "1 \<le> w" "w \<le> int (length r)"
  shows "Math_min (take (nat w) (map (\<lambda>kg. num (fnvHash kg)) r))
           |\<in>| generateWinnowingFingerprints (a @ r @ b) w"
proof -
  let ?h = "\<lambda>kg. num (fnvHash kg)"
  from assms have ne: "length (a @ r @ b) \<noteq> 0" by auto
  have sl: "slice (map ?h a @ map ?h r @ map ?h b) (int (length (map ?h a)))
              (int (length (map ?h a)) + w) = take (nat w) (map ?h r)"
    using assms by (intro slice_middle) simp_all
  have "int (length a) \<le> int (length (map ?h (a @ r @ b))) - w"
    using assms by simp
  with sl show ?thesis
    using ne by (auto simp: generateWinnowingFingerprints_def winnowing_loop_member
        intro!: exI [of _ "int (length a)"])
qed

text \<open>
  Claim C2: when the window size is at least 1 and two lists of shingles both contain
  the same run of at least that many shingles, their winnowed fingerprint sets have an
  element in common.
\<close>

theorem winnowing_guarantee:
  assumes "1 \<le> w" "w \<le> int (length run)"
  shows "generateWinnowingFingerprints (a @ run @ b) w
           |\<inter>| generateWinnowingFingerprints (c @ run @ d) w \<noteq> {||}"
  using winnowing_has_window [OF assms, of a b] winnowing_has_window [OF assms, of c d]
  by auto

theorem winnowing_guarantee_witness:
  "generateWinnowingFingerprints ([''x''] @ [''aa'', ''bb''] @ []) 2
     |\<inter>| generateWinnowingFingerprints ([] @ [''aa'', ''bb''] @ [''y'', ''z'']) 2 \<noteq> {||}"
  using winnowing_guarantee [of 2 "[''aa'', ''bb'']" "[''x'']" "[]" "[]" "[''y'', ''z'']"]
  by simp

lemma winnowing_short:
  assumes "int (length s) < w"
  shows "generateWinnowingFingerprints s w = {||}"
  using assms by (simp add: generateWinnowingFingerprints_def winnowing_loop.simps)

text \<open>
  Claim C10: a non-empty list of shingles that is shorter than the window gets the empty
  fingerprint set. So the documents \<open>abcdef\<close> and \<open>uvwxyz\<close>, which share no k-gram,
  both get the empty set under winnowing with the default sizes (k-grams of 5 characters,
  windows of 4 hashes), and their comparison has a Jaccard coefficient of 1 and the
  verdict plagiarized at the threshold 0.5.
\<close>

theorem short_input_winnowing_empty:
  "(0 < length s \<and> int (length s) < w \<longrightarrow> generateWinnowingFingerprints s w = {||})
   \<and> kGrams short_doc1 = [''abcde'', ''bcdef''] \<and> kGrams short_doc2 = [''uvwxy'', ''vwxyz'']
   \<and> fingerprints short_doc1 = {||} \<and> fingerprints short_doc2 = {||}
   \<and> jaccardSimilarity (similarity (compareDocuments short_doc1 short_doc2 (Fin 0.5))) = Fin 1
   \<and> isPlagiarized (compareDocuments short_doc1 short_doc2 (Fin 0.5))"
proof -
  have k1: "detector_generateKGrams winnowing_config (preprocessText winnowing_config ''abcdef'')
              = [''abcde'', ''bcdef'']"
    by code_simp
  have k2: "detector_generateKGrams winnowing_config (preprocessText winnowing_config ''uvwxyz'')
              = [''uvwxy'', ''vwxyz'']"
    by code_simp
  have w: "useWinnowing winnowing_config" "winnowingWindowSize winnowing_config = 4"
    by (simp_all add: winnowing_config_def default_config_def)
  have f1: "fingerprints short_doc1 = {||}"
    by (simp add: short_doc1_def createDocumentFingerprint_def Let_def k1 w
          detector_generateFingerprints_def winnowing_short)
  have f2: "fingerprints short_doc2 = {||}"
    by (simp add: short_doc2_def createDocumentFingerprint_def Let_def k2 w
          detector_generateFingerprints_def winnowing_short)
  have j: "jaccardSimilarity (similarity (compareDocuments short_doc1 short_doc2 (Fin 0.5))) = Fin 1"
    by (simp add: compareDocuments_def Let_def computeAllSimilarities_def f1 f2
          computeJaccardSimilarity_def size_of_def)
  have p: "isPlagiarized (compareDocuments short_doc1 short_doc2 (Fin 0.5))"
    by (simp add: compareDocuments_def Let_def computeAllSimilarities_def f1 f2
          computeJaccardSimilarity_def size_of_def)
  have "kGrams short_doc1 = [''abcde'', ''bcdef'']"
    by (simp add: short_doc1_def createDocumentFingerprint_def Let_def k1)
  moreover have "kGrams short_doc2 = [''uvwxy'', ''vwxyz'']"
    by (simp add: short_doc2_def createDocumentFingerprint_def Let_def k2)
  ultimately show ?thesis
    using f1 f2 j p by (simp add: winnowing_short)
qed

theorem short_input_winnowing_empty_witness:
  "0 < length [''abcde'', ''bcdef''] \<and> int (length [''abcde'', ''bcdef'']) < 4
   \<and> generateWinnowingFingerprints [''abcde'', ''bcdef''] 4 = {||}"
  using short_input_winnowing_empty [of "[''abcde'', ''bcdef'']" 4] by simp

section \<open>MinHash estimate\<close>

lemma fold_count:
  "fold (\<lambda>i m. if P i then m + 1 else m) xs (m0::nat) = m0 + length (filter P xs)"
  by (induction xs arbitrary: m0) simp_all

lemma count_matches_card:
  "count_matches sig1 sig2 = card {i. i < length sig1 \<and> js_strict_eq (sig1 ! i) (sig2 ! i)}"
proof -
  have "card {i. i < length sig1 \<and> js_strict_eq (sig1 ! i) (sig2 ! i)}
      = card {i. i < length [0..<length sig1]
                 \<and> js_strict_eq (sig1 ! ([0..<length sig1] ! i)) (sig2 ! ([0..<length sig1] ! i))}"
    by (rule arg_cong [where f = card]) auto
  then show ?thesis
    by (simp add: count_matches_def fold_count length_filter_conv_card)
qed

text \<open>
  Claim C9: \<open>estimateSimilarityFromMinHash\<close> throws exactly when the two signatures
  differ in length; for signatures of one length it returns the number of positions at
  which they are equal (by \<open>===\<close>) divided by that length.
\<close>

theorem estimate_fails_iff_lengths_differ:
  "((\<exists>e. estimateSimilarityFromMinHash sig1 sig2 = Inl e) \<longleftrightarrow> length sig1 \<noteq> length sig2)
   \<and> (length sig1 = length sig2 \<longrightarrow>
        estimateSimilarityFromMinHash sig1 sig2 =
          Inr (js_div (real (card {i. i < length sig1 \<and> js_strict_eq (sig1 ! i) (sig2 ! i)}))
                 (real (length sig1))))"
  by (simp add: estimateSimilarityFromMinHash_def count_matches_card)

theorem estimate_fails_iff_lengths_differ_witness:
  "length [Fin 1, Fin 2, PosInf] = length [Fin 1, Fin 3, PosInf]
   \<and> estimateSimilarityFromMinHash [Fin 1, Fin 2, PosInf] [Fin 1, Fin 3, PosInf] = Inr (Fin (2 / 3))
   \<and> length [Fin 1] \<noteq> length ([] :: number list)
   \<and> estimateSimilarityFromMinHash [Fin 1] [] = Inl (Error ''Signatures must have same length'')"
  using estimate_fails_iff_lengths_differ [of "[Fin 1, Fin 2, PosInf]" "[Fin 1, Fin 3, PosInf]"]
    estimate_fails_iff_lengths_differ [of "[Fin 1]" "[]"]
  by (simp add: estimateSimilarityFromMinHash_def count_matches_def js_strict_eq_def js_div_def
        upt_rec [of 0] upt_rec [of 1] upt_rec [of 2] upt_rec [of 3])

section \<open>Comparing all pairs\<close>

lemma mset_sort_insert: "mset (sort_insert cmp x ys) = add_mset x (mset ys)"
  by (induction ys) simp_all

lemma mset_js_sort: "mset (js_sort cmp xs) = mset xs"
  by (induction xs) (simp_all add: js_sort_def mset_sort_insert)

lemma set_js_sort: "set (js_sort cmp xs) = set xs"
  using mset_js_sort [of cmp xs] by (metis set_mset_mset)

lemma length_js_sort: "length (js_sort cmp xs) = length xs"
  using mset_js_sort [of cmp xs] by (metis size_mset)

lemma positive_minus_finite:
  assumes "is_finite a" "is_finite b"
  shows "js_positive (js_minus b a) \<longleftrightarrow> \<not> js_ge a b"
    and "js_ge a b \<or> js_ge b a"
  using assms by (cases a; cases b; auto simp: is_finite_def)+

lemma js_ge_trans_finite:
  assumes "is_finite a" "is_finite b" "is_finite c" "js_ge a b" "js_ge b c"
  shows "js_ge a c"
  using assms by (cases a; cases b; cases c; auto simp: is_finite_def)

lemma sorted_sort_insert:
  assumes "\<forall>r \<in> set (x # ys). is_finite (similarityPercentage r)"
    and "sorted_wrt percentage_ge ys"
  shows "sorted_wrt percentage_ge (sort_insert by_percentage_desc x ys)"
  using assms
proof (induction ys)
  case Nil
  then show ?case by simp
next
  case (Cons y ys)
  have fx: "is_finite (similarityPercentage x)" and fy: "is_finite (similarityPercentage y)"
    using Cons.prems(1) by simp_all
  show ?case
  proof (cases "js_positive (by_percentage_desc x y)")
    case True
    then have yx: "percentage_ge y x"
      using positive_minus_finite [OF fx fy]
      by (auto simp: by_percentage_desc_def percentage_ge_def)
    have "sorted_wrt percentage_ge (sort_insert by_percentage_desc x ys)"
      using Cons by simp
    moreover have "\<forall>z \<in> set (sort_insert by_percentage_desc x ys). percentage_ge y z"
    proof
      fix z assume "z \<in> set (sort_insert by_percentage_desc x ys)"
      then have "z \<in># mset (sort_insert by_percentage_desc x ys)" by simp
      then have "z = x \<or> z \<in> set ys" by (simp add: mset_sort_insert)
      with yx Cons.prems(2) show "percentage_ge y z" by auto
    qed
    ultimately show ?thesis using True by simp
  next
    case False
    then have xy: "percentage_ge x y"
      using positive_minus_finite(1) [OF fx fy]
      by (auto simp: by_percentage_desc_def percentage_ge_def)
    have "\<forall>z \<in> set ys. percentage_ge x z"
    proof
      fix z assume z: "z \<in> set ys"
      with Cons.prems(2) have "percentage_ge y z" by simp
      moreover have "is_finite (similarityPercentage z)" using Cons.prems(1) z by simp
      ultimately show "percentage_ge x z"
        using js_ge_trans_finite [OF fx fy _ xy [unfolded percentage_ge_def]]
        by (simp add: percentage_ge_def)
    qed
    with xy Cons.prems(2) False show ?thesis by simp
  qed
qed

lemma sorted_js_sort:
  assumes "\<forall>r \<in> set xs. is_finite (similarityPercentage r)"
  shows "sorted_wrt percentage_ge (js_sort by_percentage_desc xs)"
  using assms
proof (induction xs)
  case Nil
  then show ?case by (simp add: js_sort_def)
next
  case (Cons x xs)
  then have "sorted_wrt percentage_ge (js_sort by_percentage_desc xs)" by simp
  moreover have "\<forall>r \<in> set (x # js_sort by_percentage_desc xs). is_finite (similarityPercentage r)"
    using Cons.prems by (simp add: set_js_sort)
  ultimately have "sorted_wrt percentage_ge (sort_insert by_percentage_desc x (js_sort by_percentage_desc xs))"
    by (intro sorted_sort_insert)
  then show ?case by (simp add: js_sort_def)
qed

lemma pairs_count: "(\<Sum>i\<leftarrow>[0..<n]. n - Suc i) = n * (n - 1) div 2"
proof -
  have "(\<Sum>i\<leftarrow>[0..<n]. n - Suc i) = (\<Sum>i<n. n - Suc i)"
    by (simp add: sum_list_sum_nth atLeast0LessThan)
  also have "\<dots> = (\<Sum>i<n. i)"
    by (rule sum.nat_diff_reindex)
  also have "\<dots> = n * (n - 1) div 2"
  proof (cases n)
    case 0
    then show ?thesis by simp
  next
    case (Suc m)
    have "{..<Suc m} = {0..m}" by auto
    then show ?thesis by (simp add: Suc gauss_sum_nat mult.commute)
  qed
  finally show ?thesis .
qed

lemma length_all_pairs_results:
  "length (all_pairs_results documents t) = length documents * (length documents - 1) div 2"
proof -
  have "length (all_pairs_results documents t)
      = (\<Sum>i\<leftarrow>[0..<length documents]. length documents - Suc i)"
    by (simp add: all_pairs_results_def length_concat comp_def)
  then show ?thesis by (simp add: pairs_count)
qed

lemma compareDocuments_fields:
  "isPlagiarized (compareDocuments d1 d2 t)
     = js_ge (jaccardSimilarity (similarity (compareDocuments d1 d2 t))) t"
  "similarityPercentage (compareDocuments d1 d2 t)
     = times100 (jaccardSimilarity (similarity (compareDocuments d1 d2 t)))"
  "is_finite (similarityPercentage (compareDocuments d1 d2 t))"
  by (simp_all add: compareDocuments_def Let_def computeAllSimilarities_def jaccard_eq is_finite_def)

lemma all_pairs_results_member:
  assumes "r \<in> set (all_pairs_results documents t)"
  shows "\<exists>i j. i < j \<and> j < length documents
           \<and> r = compareDocuments (documents ! i) (documents ! j) t"
proof -
  from assms obtain i j where "i < length documents" "Suc i \<le> j" "j < length documents"
    "r = compareDocuments (documents ! i) (documents ! j) t"
    by (auto simp: all_pairs_results_def)
  then show ?thesis by (intro exI [of _ i] exI [of _ j]) simp
qed

text \<open>
  Claim C4: for \<open>n\<close> documents \<open>compareAll\<close> returns \<open>n * (n - 1) / 2\<close> results, one
  for each pair of positions \<open>i < j\<close> of the input; each result has the verdict
  \<open>jaccardSimilarity >= threshold\<close> and the percentage \<open>jaccardSimilarity * 100\<close>; and the
  returned list is in descending order of the percentage.
\<close>

theorem compareAll_pairs_sorted:
  "length (compareAll documents t) = length documents * (length documents - 1) div 2
   \<and> mset (compareAll documents t) =
       mset (concat (map (\<lambda>i. map (\<lambda>j. compareDocuments (documents ! i) (documents ! j) t)
                                  [i + 1..<length documents])
                         [0..<length documents]))
   \<and> (\<forall>r \<in> set (compareAll documents t).
         isPlagiarized r = js_ge (jaccardSimilarity (similarity r)) t
         \<and> similarityPercentage r = times100 (jaccardSimilarity (similarity r)))
   \<and> sorted_wrt percentage_ge (compareAll documents t)"
proof -
  have fin: "\<forall>r \<in> set (all_pairs_results documents t). is_finite (similarityPercentage r)"
    using all_pairs_results_member compareDocuments_fields(3) by blast
  have "\<forall>r \<in> set (all_pairs_results documents t).
         isPlagiarized r = js_ge (jaccardSimilarity (similarity r)) t
         \<and> similarityPercentage r = times100 (jaccardSimilarity (similarity r))"
    using all_pairs_results_member compareDocuments_fields(1,2) by metis
  then have each: "\<forall>r \<in> set (compareAll documents t).
         isPlagiarized r = js_ge (jaccardSimilarity (similarity r)) t
         \<and> similarityPercentage r = times100 (jaccardSimilarity (similarity r))"
    by (simp add: compareAll_def set_js_sort)
  have len: "length (compareAll documents t) = length documents * (length documents - 1) div 2"
    by (simp add: compareAll_def length_js_sort length_all_pairs_results)
  have pairs: "mset (compareAll documents t) =
       mset (concat (map (\<lambda>i. map (\<lambda>j. compareDocuments (documents ! i) (documents ! j) t)
                                  [i + 1..<length documents])
                         [0..<length documents]))"
    by (simp add: compareAll_def mset_js_sort all_pairs_results_def)
  have "sorted_wrt percentage_ge (compareAll documents t)"
    unfolding compareAll_def using fin by (rule sorted_js_sort)
  with len pairs each show ?thesis by blast
qed

theorem compareAll_pairs_sorted_witness:
  "length (compareAll [example_doc1, example_doc2, example_doc1] (Fin 0.5)) = 3
   \<and> set (compareAll [example_doc1, example_doc2, example_doc1] (Fin 0.5)) \<noteq> {}"
proof -
  have "length (compareAll [example_doc1, example_doc2, example_doc1] (Fin 0.5)) = 3"
    using compareAll_pairs_sorted [of "[example_doc1, example_doc2, example_doc1]" "Fin 0.5"]
    by simp
  then show ?thesis by auto
qed

section \<open>Normalization\<close>

lemma space_unit: "is_space_unit 32"
  by (simp add: is_space_unit_def)

lemma word_not_space_unit: "is_word_unit c \<Longrightarrow> \<not> is_space_unit c"
  by (auto simp: is_word_unit_def is_space_unit_def)

lemma set_replace_punctuation_units:
  "c \<in> set (replace_punctuation_units s) \<Longrightarrow>
     c = 32 \<or> (c \<in> set s \<and> (is_word_unit c \<or> is_space_unit c))"
  by (auto simp: replace_punctuation_units_def split: if_splits)

lemma set_replace_whitespace_units:
  "c \<in> set (replace_whitespace_units s) \<Longrightarrow> c = 32 \<or> (c \<in> set s \<and> \<not> is_space_unit c)"
proof (induction s rule: replace_whitespace_units.induct)
  case 1
  then show ?case by simp
next
  case (2 d ds)
  then show ?case
    by (auto split: if_splits dest: set_dropWhileD)
qed

lemma hd_replace_whitespace_units:
  "s \<noteq> [] \<Longrightarrow> \<not> is_space_unit (hd s) \<Longrightarrow> hd (replace_whitespace_units s) = hd s"
  by (cases s) simp_all

lemma collapsed_replace_whitespace_units: "collapsed_units (replace_whitespace_units s)"
proof (induction s rule: replace_whitespace_units.induct)
  case 1
  then show ?case by simp
next
  case (2 c cs)
  show ?case
  proof (cases "is_space_unit c")
    case True
    let ?r = "dropWhile is_space_unit cs"
    have "replace_whitespace_units ?r = [] \<or> \<not> is_space_unit (hd (replace_whitespace_units ?r))"
    proof (cases "?r = []")
      case True
      then have "replace_whitespace_units ?r = []"
        by (simp only: replace_whitespace_units.simps)
      then show ?thesis by (rule disjI1)
    next
      case False
      then have "\<not> is_space_unit (hd ?r)" by (rule hd_dropWhile)
      with False show ?thesis by (simp add: hd_replace_whitespace_units)
    qed
    with True "2.IH"(1) show ?thesis by simp
  next
    case False
    with "2.IH"(2) show ?thesis by simp
  qed
qed

lemma replace_whitespace_units_collapsed:
  "collapsed_units s \<Longrightarrow> replace_whitespace_units s = s"
proof (induction s)
  case Nil
  then show ?case by simp
next
  case (Cons c cs)
  show ?case
  proof (cases "is_space_unit c")
    case True
    with Cons.prems have c: "c = 32" and "cs = [] \<or> \<not> is_space_unit (hd cs)"
      by simp_all
    then have "dropWhile is_space_unit cs = cs"
      by (simp add: dropWhile_eq_self_iff)
    with True c Cons show ?thesis by simp
  next
    case False
    with Cons show ?thesis by simp
  qed
qed

lemma collapsed_units_append:
  "collapsed_units (a @ b) \<Longrightarrow> collapsed_units a \<and> collapsed_units b"
proof (induction a)
  case Nil
  then show ?case by simp
next
  case (Cons c a)
  then show ?case by (cases a) auto
qed

lemma trim_units_infix: "\<exists>p q. s = p @ trim_units s @ q"
proof -
  let ?d = "dropWhile is_space_unit s"
  have "s = takeWhile is_space_unit s @ ?d" by simp
  moreover have "rev ?d = takeWhile is_space_unit (rev ?d) @ dropWhile is_space_unit (rev ?d)"
    by simp
  then have "?d = trim_units s @ rev (takeWhile is_space_unit (rev ?d))"
    unfolding trim_units_def by (metis rev_append rev_rev_ident)
  ultimately show ?thesis by metis
qed

lemma collapsed_trim_units: "collapsed_units s \<Longrightarrow> collapsed_units (trim_units s)"
  using trim_units_infix [of s] collapsed_units_append by metis

lemma set_trim_units: "c \<in> set (trim_units s) \<Longrightarrow> c \<in> set s"
  using trim_units_infix [of s] by (metis Un_iff set_append)

lemma trim_units_ends:
  "trim_units s = []
   \<or> (\<not> is_space_unit (hd (trim_units s)) \<and> \<not> is_space_unit (last (trim_units s)))"
proof (cases "trim_units s = []")
  case True
  then show ?thesis by simp
next
  case False
  let ?d = "dropWhile is_space_unit s"
  let ?f = "dropWhile is_space_unit (rev ?d)"
  have e: "trim_units s = rev ?f" by (simp add: trim_units_def)
  with False have f: "?f \<noteq> []" by simp
  then have "\<not> is_space_unit (hd ?f)" by (rule hd_dropWhile)
  then have l: "\<not> is_space_unit (last (trim_units s))" by (simp add: e last_rev)
  have "rev ?d = takeWhile is_space_unit (rev ?d) @ ?f" by simp
  then have d: "?d = trim_units s @ rev (takeWhile is_space_unit (rev ?d))"
    unfolding trim_units_def by (metis rev_append rev_rev_ident)
  with False have dn: "?d \<noteq> []" by (metis append_is_Nil_conv)
  from d False have "hd ?d = hd (trim_units s)" by (metis hd_append2)
  moreover from dn have "\<not> is_space_unit (hd ?d)" by (rule hd_dropWhile)
  ultimately show ?thesis using l by simp
qed

lemma trim_units_fixed:
  assumes "s = [] \<or> (\<not> is_space_unit (hd s) \<and> \<not> is_space_unit (last s))"
  shows "trim_units s = s"
proof (cases "s = []")
  case True
  then show ?thesis by (simp add: trim_units_def)
next
  case False
  with assms have h: "\<not> is_space_unit (hd s)" and l: "\<not> is_space_unit (last s)" by simp_all
  from h have "dropWhile is_space_unit s = s" by (simp add: dropWhile_eq_self_iff)
  moreover from l have "dropWhile is_space_unit (rev s) = rev s"
    by (simp add: dropWhile_eq_self_iff hd_rev)
  ultimately show ?thesis by (simp add: trim_units_def)
qed

lemma normalize_units_chars:
  assumes "c \<in> set (normalize_units lower t)"
  shows "c = 32 \<or> (c \<in> set (lower t) \<and> is_word_unit c)"
proof -
  from assms have "c \<in> set (replace_whitespace_units (replace_punctuation_units (lower t)))"
    unfolding normalize_units_def by (rule set_trim_units)
  then have "c = 32 \<or> (c \<in> set (replace_punctuation_units (lower t)) \<and> \<not> is_space_unit c)"
    by (rule set_replace_whitespace_units)
  then show ?thesis
    using set_replace_punctuation_units [of c "lower t"] by auto
qed

lemma normalize_units_fixed:
  assumes no_capitals: "\<forall>s. \<forall>c \<in> set (lower s). \<not> (65 \<le> c \<and> c \<le> 90)"
    and keeps_plain: "\<forall>s. (\<forall>c \<in> set s. c = 32 \<or> (is_word_unit c \<and> \<not> (65 \<le> c \<and> c \<le> 90)))
                        \<longrightarrow> lower s = s"
  shows "normalize_units lower (normalize_units lower text) = normalize_units lower text"
proof -
  let ?u = "normalize_units lower text"
  have chars: "c = 32 \<or> (is_word_unit c \<and> \<not> (65 \<le> c \<and> c \<le> 90))" if "c \<in> set ?u" for c
    using normalize_units_chars [OF that] no_capitals by blast
  then have "lower ?u = ?u"
    using keeps_plain by blast
  moreover have "replace_punctuation_units ?u = ?u"
    unfolding replace_punctuation_units_def
  proof (rule map_idI)
    fix c assume "c \<in> set ?u"
    from chars [OF this] show "(if is_word_unit c \<or> is_space_unit c then c else 32) = c"
      by (auto simp: space_unit)
  qed
  moreover have "replace_whitespace_units ?u = ?u"
    by (intro replace_whitespace_units_collapsed)
      (simp add: normalize_units_def collapsed_trim_units collapsed_replace_whitespace_units)
  moreover have "trim_units ?u = ?u"
    by (rule trim_units_fixed) (simp add: normalize_units_def trim_units_ends)
  ultimately show ?thesis
    by (simp add: normalize_units_def [of lower "normalize_units lower text"])
qed

lemma toLowerCase_units_no_capitals:
  "\<forall>s. \<forall>c \<in> set (toLowerCase_units s). \<not> (65 \<le> c \<and> c \<le> 90)"
  by (auto simp: toLowerCase_units_def toLowerCase_unit_def split: if_splits)

lemma toLowerCase_units_keeps_plain:
  "\<forall>s. (\<forall>c \<in> set s. c = 32 \<or> (is_word_unit c \<and> \<not> (65 \<le> c \<and> c \<le> 90)))
        \<longrightarrow> toLowerCase_units s = s"
proof (intro allI impI)
  fix s :: "nat list"
  assume "\<forall>c \<in> set s. c = 32 \<or> (is_word_unit c \<and> \<not> (65 \<le> c \<and> c \<le> 90))"
  then show "toLowerCase_units s = s"
  proof (induction s)
    case Nil
    then show ?case by (simp add: toLowerCase_units_def)
  next
    case (Cons c s)
    then have "toLowerCase_unit c = [c]"
      by (auto simp: toLowerCase_unit_def is_word_unit_def)
    with Cons show ?case by (simp add: toLowerCase_units_def)
  qed
qed

text \<open>
  Claim C8: normalizing a normalized text changes nothing, for every text (every list of
  code units). \<open>toLowerCase\<close> is the engine's; the proof uses two facts about it, and
  holds for every function that has them: its result has no code unit from \<open>A\<close> to \<open>Z\<close>,
  and it returns unchanged a string made of \<open>a\<close> to \<open>z\<close>, digits, underscores and spaces.
\<close>

theorem normalize_idempotent:
  assumes "\<forall>s. \<forall>c \<in> set (lower s). \<not> (65 \<le> c \<and> c \<le> 90)"
    and "\<forall>s. (\<forall>c \<in> set s. c = 32 \<or> (is_word_unit c \<and> \<not> (65 \<le> c \<and> c \<le> 90)))
              \<longrightarrow> lower s = s"
  shows "normalize_units lower (normalize_units lower text) = normalize_units lower text"
  using assms by (rule normalize_units_fixed)

lemma normalize_units_example:
  "normalize_units toLowerCase_units [0x212A, 0x3000, 0x0130, 0x2028, 9, 0x41, 0x21, 0xD83D, 0xDE00, 0xC9]
     = [107, 32, 105, 32, 97]"
  by (simp add: normalize_units_def toLowerCase_units_def toLowerCase_unit_def
        replace_punctuation_units_def trim_units_def is_word_unit_def is_space_unit_def)

theorem normalize_idempotent_witness:
  "normalize_units toLowerCase_units
     (normalize_units toLowerCase_units
        [0x212A, 0x3000, 0x0130, 0x2028, 9, 0x41, 0x21, 0xD83D, 0xDE00, 0xC9])
   = [107, 32, 105, 32, 97]"
  using normalize_idempotent [OF toLowerCase_units_no_capitals toLowerCase_units_keeps_plain,
      of "[0x212A, 0x3000, 0x0130, 0x2028, 9, 0x41, 0x21, 0xD83D, 0xDE00, 0xC9]"]
  by (simp add: normalize_units_example)

text \<open>
  The normalizer of the pipeline, on strings with code units below 256, is the
  normalizer on code units with the lower-case function of the examples: it computes the
  same code units. So it is idempotent as well.
\<close>

lemma is_word_unit_charCode: "is_word_unit (charCode c) = is_word_char c"
  by (simp add: is_word_unit_def is_word_char_def Let_def)

lemma is_space_unit_charCode: "is_space_unit (charCode c) = is_space_char c"
  using charCode_less [of c] by (auto simp: is_space_unit_def is_space_char_def Let_def)

lemma charCode_space: "charCode (CHR '' '') = 32"
  by (simp add: charCode_def)

lemma charCode_char_of: "charCode (char_of (m :: nat)) = m mod 256"
  by (simp add: charCode_def)

lemma toLowerCase_unit_charCode: "toLowerCase_unit (charCode c) = [charCode (toLowerCase_char c)]"
proof -
  have n: "charCode c < 256" by (rule charCode_less)
  then have "charCode c \<noteq> 0x0130" and "charCode c \<noteq> 0x212A" by simp_all
  with n show ?thesis
    by (simp add: toLowerCase_unit_def toLowerCase_char_def Let_def charCode_char_of)
qed

lemma toLowerCase_units_string: "toLowerCase_units (map charCode s) = map charCode (toLowerCase s)"
  by (induction s) (simp_all add: toLowerCase_units_def toLowerCase_def toLowerCase_unit_charCode)

lemma replace_punctuation_units_string:
  "replace_punctuation_units (map charCode s) = map charCode (replace_punctuation s)"
  by (simp add: replace_punctuation_units_def replace_punctuation_def is_word_unit_charCode
        is_space_unit_charCode charCode_space)

lemma dropWhile_space_string:
  "dropWhile is_space_unit (map charCode s) = map charCode (dropWhile is_space_char s)"
  by (simp add: dropWhile_map comp_def is_space_unit_charCode)

lemma replace_whitespace_units_string:
  "replace_whitespace_units (map charCode s) = map charCode (replace_whitespace s)"
proof (induction s rule: replace_whitespace.induct)
  case 1
  then show ?case by simp
next
  case (2 c cs)
  then show ?case
    by (simp add: is_space_unit_charCode charCode_space dropWhile_space_string)
qed

lemma trim_units_string: "trim_units (map charCode s) = map charCode (trim s)"
  by (simp add: trim_units_def trim_def dropWhile_space_string rev_map)

lemma normalize_units_string:
  "normalize_units toLowerCase_units (map charCode t) = map charCode (normalize t)"
  by (simp add: normalize_units_def normalize_def toLowerCase_units_string
        replace_punctuation_units_string replace_whitespace_units_string trim_units_string)

lemma normalize_string_idempotent: "normalize (normalize t) = normalize t"
proof -
  have "map charCode (normalize (normalize t)) = map charCode (normalize t)"
    by (simp add: normalize_units_string [symmetric]
          normalize_units_fixed [OF toLowerCase_units_no_capitals toLowerCase_units_keeps_plain])
  moreover have "inj charCode"
    by (rule injI) (simp add: charCode_def)
  ultimately show ?thesis by (simp add: inj_map_eq_map)
qed

lemma normalize_examples:
  "normalize ''  Hello,   World!  '' = ''hello world''"
  "normalize '' a_B--c9 '' = ''a_b c9''"
  by code_simp+

end
